theory Spec2Isabelle
  imports Main "HOL-Library.Multiset"
begin

section \<open>Study-buddy matchmaking server: data model\<close>

text \<open>
  The server (\<^verbatim>\<open>src/unnamed/part_000\<close>) keeps its state in a process-local
  \<^verbatim>\<open>memoryStore\<close>, or in Redis when a connection could be made at start-up
  (\<^verbatim>\<open>useRedis\<close>). Strings are lists of code units; every handler is modelled as one
  atomic step on the server state (the interleaving of handlers at an \<^verbatim>\<open>await\<close>
  and the expiry of keys after their time-to-live are not part of the model).
\<close>

subsection \<open>Users, messages, sessions\<close>

text \<open>\<^verbatim>\<open>User\<close> of \<^verbatim>\<open>src/src/types/index.ts\<close>: field \<^verbatim>\<open>id\<close> is \<open>uid\<close> here.\<close>

record user =
  uid :: string
  tags :: "string list"

datatype msgtype = TMessage | TSystem

text \<open>\<^verbatim>\<open>ChatMessage\<close>: \<^verbatim>\<open>{id, content, userId, timestamp, type}\<close>.\<close>

record message =
  m_id :: string
  m_content :: string
  m_userId :: string
  m_timestamp :: nat
  m_type :: msgtype

datatype vstatus = Pending | Accepted | Declined

text \<open>
  \<^verbatim>\<open>videoRequested\<close>: \<^verbatim>\<open>{requesterId, status}\<close>. The requester is optional
  because \<^verbatim>\<open>handleVideoResponse\<close> spreads a possibly undefined record.
\<close>

record videoreq =
  v_requesterId :: "string option"
  v_status :: vstatus

record session =
  sid :: string
  users :: "user list"
  sharedTags :: "string list"
  createdAt :: nat
  messages :: "message list"
  videoRequested :: "videoreq option"

text \<open>The report record built by \<^verbatim>\<open>POST /api/report\<close>.\<close>

record report =
  r_id :: string
  r_sessionId :: "string option"
  r_reason :: "string option"
  r_messages :: "message list"
  r_timestamp :: int
  r_ip :: string

subsection \<open>Messages sent over a socket\<close>

datatype wsmsg =
    MatchFound session
  | ChatMsg message
  | VideoRequest string string
  | UserDisconnected
  | SessionEnded
  | ErrorMsg string "string option"
  | QueueLeft bool

text \<open>
  An entry of the \<^verbatim>\<open>clients\<close> map, \<^verbatim>\<open>{ws, userId, sessionId}\<close>: \<open>c_sent\<close> is what \<^verbatim>\<open>ws.send\<close> has written to
  the socket so far, oldest first.
\<close>

record client =
  c_sent :: "wsmsg list"
  c_userId :: "string option"
  c_sessionId :: "string option"

subsection \<open>The server state\<close>

text \<open>
  \<open>queue\<close>, \<open>sessions\<close>, \<open>blockedPairs\<close> and \<open>reports\<close> are the fields of
  \<^verbatim>\<open>memoryStore\<close>. \<open>matchingQueue\<close> and \<open>redisReports\<close> are the Redis lists of
  those names (head of the list = left end), \<open>redisSessions\<close> and \<open>redisBlocked\<close>
  the Redis keys \<^verbatim>\<open>session:...\<close> and \<^verbatim>\<open>blocked:...\<close>. \<open>clients\<close> is the
  \<^verbatim>\<open>clients\<close> map in insertion order, \<open>timers\<close> the connections whose 60-second
  callback is armed and has not fired yet.
\<close>

record server =
  useRedis :: bool
  queue :: "user list"
  sessions :: "string \<rightharpoonup> session"
  blockedPairs :: "string set"
  reports :: "report list"
  matchingQueue :: "user list"
  redisSessions :: "string \<rightharpoonup> session"
  redisBlocked :: "string set"
  redisReports :: "report list"
  clients :: "(string \<times> client) list"
  timers :: "string list"

datatype error = TypeError

section \<open>Wait queue\<close>

text \<open>\<^verbatim>\<open>addToQueue\<close>: \<^verbatim>\<open>lPush\<close> at the head of the Redis list, \<^verbatim>\<open>push\<close> at the
  end of the array.\<close>

definition addToQueue :: "user \<Rightarrow> server \<Rightarrow> server" where
  "addToQueue u s =
     (if useRedis s then s\<lparr>matchingQueue := u # matchingQueue s\<rparr>
      else s\<lparr>queue := queue s @ [u]\<rparr>)"

text \<open>\<^verbatim>\<open>rPop\<close> and \<^verbatim>\<open>Array.prototype.pop\<close>: both take the last element, and
  give nothing on an empty list.\<close>

fun pop_last :: "'a list \<Rightarrow> 'a option \<times> 'a list" where
  "pop_last [] = (None, [])"
| "pop_last (x # xs) = (Some (last (x # xs)), butlast (x # xs))"

definition getFromQueue :: "server \<Rightarrow> user option \<times> server" where
  "getFromQueue s =
     (if useRedis s then
        (case pop_last (matchingQueue s) of (r, q) \<Rightarrow> (r, s\<lparr>matchingQueue := q\<rparr>))
      else
        (case pop_last (queue s) of (r, q) \<Rightarrow> (r, s\<lparr>queue := q\<rparr>)))"

definition getQueueLength :: "server \<Rightarrow> nat" where
  "getQueueLength s = (if useRedis s then length (matchingQueue s) else length (queue s))"

text \<open>The list the three functions above work on, whichever backend is in use.\<close>

definition waiting :: "server \<Rightarrow> user list" where
  "waiting s = (if useRedis s then matchingQueue s else queue s)"

text \<open>
  \<^verbatim>\<open>removeFromQueue\<close>, Redis branch: \<^verbatim>\<open>queueLength\<close> times, pop the tail and push
  it back at the head unless it is the user to remove. \<^verbatim>\<open>JSON.parse(null).id\<close>
  throws when the list runs dry; the listener of the socket catches the error.
\<close>

fun removeLoop :: "nat \<Rightarrow> string \<Rightarrow> user list \<Rightarrow> error + user list" where
  "removeLoop 0 userId q = Inr q"
| "removeLoop (Suc n) userId q =
     (case pop_last q of
        (None, q') \<Rightarrow> Inl TypeError
      | (Some parsedUser, q') \<Rightarrow>
          if uid parsedUser \<noteq> userId then removeLoop n userId (parsedUser # q')
          else removeLoop n userId q')"

text \<open>Memory branch: \<^verbatim>\<open>findIndex\<close> then \<^verbatim>\<open>splice(index, 1)\<close> removes the first
  entry with that id only.\<close>

fun spliceFirst :: "string \<Rightarrow> user list \<Rightarrow> user list" where
  "spliceFirst userId [] = []"
| "spliceFirst userId (u # us) = (if uid u = userId then us else u # spliceFirst userId us)"

definition removeFromQueue :: "string \<Rightarrow> server \<Rightarrow> error + server" where
  "removeFromQueue userId s =
     (if useRedis s then
        (case removeLoop (length (matchingQueue s)) userId (matchingQueue s) of
           Inl e \<Rightarrow> Inl e
         | Inr q \<Rightarrow> Inr (s\<lparr>matchingQueue := q\<rparr>))
      else Inr (s\<lparr>queue := spliceFirst userId (queue s)\<rparr>))"

section \<open>Tags\<close>

text \<open>
  \<^verbatim>\<open>String.prototype.toLowerCase\<close> on code units below 256: the ASCII capitals and
  the Latin-1 capitals (all of 192..222 but the multiplication sign 215) move up by 32.
\<close>

definition lowerChar :: "char \<Rightarrow> char" where
  "lowerChar c =
     (let n = (of_char c :: nat) in
      if (65 \<le> n \<and> n \<le> 90) \<or> (192 \<le> n \<and> n \<le> 222 \<and> n \<noteq> 215)
      then char_of (n + 32) else c)"

definition toLowerCase :: "string \<Rightarrow> string" where
  "toLowerCase t = map lowerChar t"

text \<open>\<^verbatim>\<open>new Set(xs)\<close> keeps the first occurrence of each element, in insertion order.\<close>

fun newSet :: "'a list \<Rightarrow> 'a list" where
  "newSet xs = rev (remdups (rev xs))"

definition calculateMatchScore :: "string list \<Rightarrow> string list \<Rightarrow> nat" where
  "calculateMatchScore tags1 tags2 =
     (let set1 = newSet (map toLowerCase tags1);
          set2 = newSet (map toLowerCase tags2);
          intersection = newSet (filter (\<lambda>tag. tag \<in> set set2) set1)
      in length intersection)"

definition getSharedTags :: "string list \<Rightarrow> string list \<Rightarrow> string list" where
  "getSharedTags tags1 tags2 =
     (let set1 = newSet (map toLowerCase tags1);
          set2 = newSet (map toLowerCase tags2);
          shared = filter (\<lambda>tag. tag \<in> set set2) set1
      in filter (\<lambda>tag. toLowerCase tag \<in> set shared) tags1)"

section \<open>Block list\<close>

text \<open>The keys are built by string interpolation, as in the source.\<close>

definition isBlocked :: "server \<Rightarrow> string \<Rightarrow> string \<Rightarrow> bool" where
  "isBlocked s userId1 userId2 =
     (let blockKey = ''blocked:'' @ userId1 @ '':'' @ userId2;
          reverseBlockKey = ''blocked:'' @ userId2 @ '':'' @ userId1
      in if useRedis s then
           blockKey \<in> redisBlocked s \<or> reverseBlockKey \<in> redisBlocked s
         else
           (userId1 @ '':'' @ userId2) \<in> blockedPairs s \<or>
           (userId2 @ '':'' @ userId1) \<in> blockedPairs s)"

section \<open>Matchmaker\<close>

text \<open>An element of \<^verbatim>\<open>matches\<close>: \<^verbatim>\<open>{user, score}\<close>.\<close>

record held =
  h_user :: user
  score :: nat

text \<open>
  The \<^verbatim>\<open>for\<close> loop of \<^verbatim>\<open>findMatch\<close>; the first argument is the number of
  iterations left, \<open>matches\<close> the array built so far.
\<close>

fun drain :: "nat \<Rightarrow> user \<Rightarrow> held list \<Rightarrow> server \<Rightarrow> held list \<times> server" where
  "drain 0 u matches s = (matches, s)"
| "drain (Suc n) u matches s =
     (case getFromQueue s of
        (None, s') \<Rightarrow> (matches, s')
      | (Some potentialMatch, s') \<Rightarrow>
          if uid potentialMatch = uid u \<or> isBlocked s' (uid u) (uid potentialMatch)
          then drain n u matches (addToQueue potentialMatch s')
          else
            let sc = calculateMatchScore (tags u) (tags potentialMatch) in
            if sc > 0
            then drain n u (matches @ [\<lparr>h_user = potentialMatch, score = sc\<rparr>]) s'
            else drain n u matches (addToQueue potentialMatch s'))"

text \<open>
  \<^verbatim>\<open>matches.sort((a, b) => b.score - a.score)\<close> is a stable sort by falling score:
  \<open>sort_key\<close> is the stable insertion sort of the list library.
\<close>

definition sortMatches :: "held list \<Rightarrow> held list" where
  "sortMatches matches = sort_key (\<lambda>m. - int (score m)) matches"

definition findMatch :: "user \<Rightarrow> server \<Rightarrow> user option \<times> server" where
  "findMatch u s =
     (case drain (getQueueLength s) u [] s of
        (matches, s') \<Rightarrow>
          (case sortMatches matches of
             [] \<Rightarrow> (None, s')
           | m # _ \<Rightarrow> (Some (h_user m), s')))"

section \<open>Moderation filter\<close>

subsection \<open>The regular expressions of \<^verbatim>\<open>personalInfoPatterns\<close>\<close>

text \<open>
  The fragment of JavaScript regular expressions the four patterns use. \<open>Repeat p lo hi\<close>
  is a character class repeated \<open>lo\<close> to \<open>hi\<close> times (\<open>None\<close>: no upper bound),
  \<open>Boundary\<close> is \<^verbatim>\<open>\b\<close>, \<open>LitCI\<close> a literal under the \<^verbatim>\<open>i\<close> flag.
\<close>

datatype regex =
    Eps
  | Lit string
  | LitCI string
  | Class "char \<Rightarrow> bool"
  | Repeat "char \<Rightarrow> bool" nat "nat option"
  | Boundary
  | Opt regex
  | Seq regex regex
  | Alt regex regex

definition upperAZ :: string where "upperAZ = ''ABCDEFGHIJKLMNOPQRSTUVWXYZ''"
definition lowerAZ :: string where "lowerAZ = ''abcdefghijklmnopqrstuvwxyz''"
definition digits :: string where "digits = ''0123456789''"

text \<open>\<^verbatim>\<open>\w\<close>, \<^verbatim>\<open>\d\<close> and \<^verbatim>\<open>\s\<close> (the white space below code unit 256).\<close>

definition wordChar :: "char \<Rightarrow> bool" where
  "wordChar c = (c \<in> set (upperAZ @ lowerAZ @ digits @ ''_''))"

definition digitChar :: "char \<Rightarrow> bool" where
  "digitChar c = (c \<in> set digits)"

definition spaceChar :: "char \<Rightarrow> bool" where
  "spaceChar c = ((of_char c :: nat) \<in> set [9, 10, 11, 12, 13, 32, 160])"

text \<open>Canonicalisation under the \<^verbatim>\<open>i\<close> flag: only ASCII letters fold onto ASCII.\<close>

definition canon :: "char \<Rightarrow> char" where
  "canon c = (if c \<in> set upperAZ then lowerChar c else c)"

definition boundaryAt :: "string \<Rightarrow> nat \<Rightarrow> bool" where
  "boundaryAt s i =
     ((0 < i \<and> i \<le> length s \<and> wordChar (s ! (i - 1))) \<noteq> (i < length s \<and> wordChar (s ! i)))"

text \<open>\<open>ends r s i\<close>: the positions where a match of \<open>r\<close> that starts at \<open>i\<close> can end.\<close>

fun ends :: "regex \<Rightarrow> string \<Rightarrow> nat \<Rightarrow> nat list" where
  "ends Eps s i = [i]"
| "ends (Lit w) s i = (if take (length w) (drop i s) = w then [i + length w] else [])"
| "ends (LitCI w) s i =
     (if map canon (take (length w) (drop i s)) = map canon w then [i + length w] else [])"
| "ends (Class p) s i = (if i < length s \<and> p (s ! i) then [i + 1] else [])"
| "ends (Repeat p lo hi) s i =
     (let run = length (takeWhile p (drop i s));
          top = (case hi of None \<Rightarrow> run | Some h \<Rightarrow> min h run)
      in map (\<lambda>k. i + k) [lo ..< Suc top])"
| "ends Boundary s i = (if boundaryAt s i then [i] else [])"
| "ends (Opt r) s i = ends r s i @ [i]"
| "ends (Seq r1 r2) s i = concat (map (ends r2 s) (ends r1 s i))"
| "ends (Alt r1 r2) s i = ends r1 s i @ ends r2 s i"

text \<open>\<^verbatim>\<open>pattern.test(content)\<close> on a freshly built pattern (\<^verbatim>\<open>lastIndex\<close> is 0).\<close>

definition test :: "regex \<Rightarrow> string \<Rightarrow> bool" where
  "test r s = list_ex (\<lambda>i. ends r s i \<noteq> []) [0 ..< Suc (length s)]"

definition seqs :: "regex list \<Rightarrow> regex" where
  "seqs rs = foldr Seq rs Eps"

definition alts :: "regex \<Rightarrow> regex list \<Rightarrow> regex" where
  "alts r rs = foldl Alt r rs"

text \<open>\<^verbatim>\<open>/\b\d{3}[-.]?\d{3}[-.]?\d{4}\b/\<close>\<close>

definition phonePattern :: regex where
  "phonePattern = seqs
     [Boundary, Repeat digitChar 3 (Some 3), Opt (Class (\<lambda>c. c \<in> set ''-.'')),
      Repeat digitChar 3 (Some 3), Opt (Class (\<lambda>c. c \<in> set ''-.'')),
      Repeat digitChar 4 (Some 4), Boundary]"

text \<open>\<^verbatim>\<open>/\b[A-Za-z0-9._%+-]+@[A-Za-z0-9.-]+\.[A-Z|a-z]{2,}\b/\<close>\<close>

definition emailPattern :: regex where
  "emailPattern = seqs
     [Boundary, Repeat (\<lambda>c. c \<in> set (upperAZ @ lowerAZ @ digits @ ''._%+-'')) 1 None,
      Lit ''@'', Repeat (\<lambda>c. c \<in> set (upperAZ @ lowerAZ @ digits @ ''.-'')) 1 None,
      Lit ''.'', Repeat (\<lambda>c. c \<in> set (upperAZ @ ''|'' @ lowerAZ)) 2 None, Boundary]"

text \<open>\<^verbatim>\<open>/\bhttps?:\/\/[^\s]+\b/g\<close>\<close>

definition urlPattern :: regex where
  "urlPattern = seqs
     [Boundary, Lit ''http'', Opt (Lit ''s''), Lit ''://'',
      Repeat (\<lambda>c. \<not> spaceChar c) 1 None, Boundary]"

text \<open>\<^verbatim>\<open>/\b(?:instagram|snapchat|discord|telegram|whatsapp|facebook|twitter|tiktok)\b/i\<close>\<close>

definition socialPattern :: regex where
  "socialPattern = seqs
     [Boundary,
      alts (LitCI ''instagram'')
        [LitCI ''snapchat'', LitCI ''discord'', LitCI ''telegram'', LitCI ''whatsapp'',
         LitCI ''facebook'', LitCI ''twitter'', LitCI ''tiktok''],
      Boundary]"

definition personalInfoPatterns :: "regex list" where
  "personalInfoPatterns = [phonePattern, emailPattern, urlPattern, socialPattern]"

subsection \<open>\<^verbatim>\<open>moderateContent\<close>\<close>

text \<open>The \<^verbatim>\<open>for\<close> loop that sets \<^verbatim>\<open>flagged\<close> and breaks at the first hit.\<close>

fun anyPattern :: "regex list \<Rightarrow> string \<Rightarrow> bool" where
  "anyPattern [] c = False"
| "anyPattern (pattern # ps) c = (if test pattern c then True else anyPattern ps c)"

record moderated =
  content :: string
  flagged :: bool
  original :: string

text \<open>
  \<^verbatim>\<open>filter.clean\<close> belongs to the package \<^verbatim>\<open>bad-words\<close>, which is not part of the
  repository. The package splits the text at \<^verbatim>\<open>/\b/\<close>, masks the pieces that are on its
  word list and joins them with \<^verbatim>\<open>this.splitRegex.exec(string)[0]\<close>: where
  \<^verbatim>\<open>/\b/\<close> matches nowhere, that is in a text with no word character, \<^verbatim>\<open>exec\<close> gives
  \<^verbatim>\<open>null\<close> and the call raises a \<^verbatim>\<open>TypeError\<close>. The word list is not in the
  repository either: \<open>masked\<close> is the text the package returns when it returns.
\<close>

definition filterClean :: "(string \<Rightarrow> string) \<Rightarrow> string \<Rightarrow> error + string" where
  "filterClean masked c = (if test Boundary c then Inr (masked c) else Inl TypeError)"

text \<open>\<^verbatim>\<open>moderateContent\<close> calls \<^verbatim>\<open>filter.clean\<close> first and catches nothing.\<close>

definition moderateContent :: "(string \<Rightarrow> string) \<Rightarrow> string \<Rightarrow> error + moderated" where
  "moderateContent masked c =
     (case filterClean masked c of
        Inl err \<Rightarrow> Inl err
      | Inr cleaned \<Rightarrow>
          let hit = anyPattern personalInfoPatterns c
          in Inr \<lparr>content = cleaned, flagged = (hit \<or> cleaned \<noteq> c), original = c\<rparr>)"

section \<open>Session store and connection registry\<close>

definition getFromStore :: "string \<Rightarrow> server \<Rightarrow> session option" where
  "getFromStore key s = (if useRedis s then redisSessions s key else sessions s key)"

definition setInStore :: "string \<Rightarrow> session \<Rightarrow> server \<Rightarrow> server" where
  "setInStore key v s =
     (if useRedis s then s\<lparr>redisSessions := (redisSessions s)(key \<mapsto> v)\<rparr>
      else s\<lparr>sessions := (sessions s)(key \<mapsto> v)\<rparr>)"

text \<open>\<^verbatim>\<open>clients.get(clientId)\<close>\<close>

definition getClient :: "string \<Rightarrow> server \<Rightarrow> client option" where
  "getClient clientId s = map_of (clients s) clientId"

text \<open>An assignment to a field of the client object stored under \<open>clientId\<close>.\<close>

definition updClient :: "string \<Rightarrow> (client \<Rightarrow> client) \<Rightarrow> server \<Rightarrow> server" where
  "updClient clientId f s =
     s\<lparr>clients := map (\<lambda>(k, c). if k = clientId then (k, f c) else (k, c)) (clients s)\<rparr>"

text \<open>\<^verbatim>\<open>ws.send\<close> on the socket of the client stored under \<open>clientId\<close>.\<close>

definition send :: "string \<Rightarrow> wsmsg \<Rightarrow> server \<Rightarrow> server" where
  "send clientId m s = updClient clientId (\<lambda>c. c\<lparr>c_sent := c_sent c @ [m]\<rparr>) s"

text \<open>\<^verbatim>\<open>[...clients.values()].find(c => c.userId === id)\<close>, with the key it is stored
  under.\<close>

definition findClientByUser :: "string \<Rightarrow> server \<Rightarrow> (string \<times> client) option" where
  "findClientByUser i s = find (\<lambda>(k, c). c_userId c = Some i) (clients s)"

text \<open>\<^verbatim>\<open>session.users.find(u => u.id !== client.userId)\<close>\<close>

definition otherUserOf :: "session \<Rightarrow> client \<Rightarrow> user option" where
  "otherUserOf sess c = find (\<lambda>u. Some (uid u) \<noteq> c_userId c) (users sess)"

text \<open>A null and an empty string are both falsy.\<close>

fun truthy :: "string option \<Rightarrow> bool" where
  "truthy None = False"
| "truthy (Some x) = (x \<noteq> [])"

text \<open>\<^verbatim>\<open>Array.prototype.join\<close>\<close>

fun join :: "string \<Rightarrow> string list \<Rightarrow> string" where
  "join sep [] = []"
| "join sep [x] = x"
| "join sep (x # y # ys) = x @ sep @ join sep (y # ys)"

section \<open>Handlers\<close>

text \<open>The values \<^verbatim>\<open>uuidv4()\<close> and \<^verbatim>\<open>Date.now()\<close> give during one call of
  \<^verbatim>\<open>handleJoinQueue\<close>, in the order of the calls.\<close>

record env =
  e_sessionId :: string
  e_messageId :: string
  e_createdAt :: nat
  e_timestamp :: nat

definition newSession :: "env \<Rightarrow> user \<Rightarrow> user \<Rightarrow> session" where
  "newSession e u match =
     (let shared = getSharedTags (tags u) (tags match) in
      \<lparr>sid = e_sessionId e, users = [u, match], sharedTags = shared,
       createdAt = e_createdAt e,
       messages =
         [\<lparr>m_id = e_messageId e,
           m_content = ''You've been matched! You both study: '' @ join '', '' shared,
           m_userId = ''system'', m_timestamp = e_timestamp e, m_type = TSystem\<rparr>],
       videoRequested = None\<rparr>)"

definition handleJoinQueue :: "env \<Rightarrow> string \<Rightarrow> user \<Rightarrow> server \<Rightarrow> server" where
  "handleJoinQueue e clientId u s =
     (case getClient clientId s of
        None \<Rightarrow> s
      | Some _ \<Rightarrow>
          let s1 = updClient clientId (\<lambda>c. c\<lparr>c_userId := Some (uid u)\<rparr>) s in
          (case findMatch u s1 of
             (Some match, s2) \<Rightarrow>
               let sess = newSession e u match;
                   s3 = setInStore (''session:'' @ e_sessionId e) sess s2;
                   s4 = updClient clientId (\<lambda>c. c\<lparr>c_sessionId := Some (e_sessionId e)\<rparr>) s3;
                   matchClient = findClientByUser (uid match) s4;
                   s5 = (case matchClient of
                           None \<Rightarrow> s4
                         | Some (k, _) \<Rightarrow>
                             updClient k (\<lambda>c. c\<lparr>c_sessionId := Some (e_sessionId e)\<rparr>) s4);
                   s6 = send clientId (MatchFound sess) s5
               in (case matchClient of
                     None \<Rightarrow> s6
                   | Some (k, _) \<Rightarrow> send k (MatchFound sess) s6)
           | (None, s2) \<Rightarrow>
               (addToQueue u s2)\<lparr>timers := timers s2 @ [clientId]\<rparr>))"

text \<open>
  The callback of \<^verbatim>\<open>setTimeout(..., 60000)\<close> armed by \<^verbatim>\<open>handleJoinQueue\<close> for
  \<open>clientId\<close>, run on the state the server has when the timer fires.
\<close>

definition noMatchNotice :: wsmsg where
  "noMatchNotice =
     ErrorMsg ''No matches found. Try selecting more subjects or try again later.''
       (Some ''MATCHING_TIMEOUT'')"

definition fireTimeout :: "string \<Rightarrow> server \<Rightarrow> server" where
  "fireTimeout clientId s =
     (if clientId \<notin> set (timers s) then s
      else
        let s1 = s\<lparr>timers := remove1 clientId (timers s)\<rparr> in
        (case getClient clientId s1 of
           None \<Rightarrow> s1
         | Some stillWaiting \<Rightarrow>
             if \<not> truthy (c_sessionId stillWaiting) then send clientId noMatchNotice s1
             else s1))"

definition handleLeaveQueue :: "string \<Rightarrow> server \<Rightarrow> error + server" where
  "handleLeaveQueue clientId s =
     (case getClient clientId s of
        None \<Rightarrow> Inr s
      | Some c \<Rightarrow>
          if \<not> truthy (c_userId c) then Inr s
          else
            (case removeFromQueue (the (c_userId c)) s of
               Inl err \<Rightarrow> Inl err
             | Inr s1 \<Rightarrow> Inr (send clientId (QueueLeft True) s1)))"

text \<open>\<open>now\<close> is the value of \<^verbatim>\<open>Date.now()\<close>; the payload is a message whose content
  and time stamp the handler overwrites.\<close>

definition handleChatMessage ::
  "(string \<Rightarrow> string) \<Rightarrow> nat \<Rightarrow> string \<Rightarrow> message \<Rightarrow> server \<Rightarrow> error + server" where
  "handleChatMessage masked now clientId payload s =
     (case getClient clientId s of
        None \<Rightarrow> Inr s
      | Some c \<Rightarrow>
          if \<not> truthy (c_sessionId c) then Inr s
          else
            (case getFromStore (''session:'' @ the (c_sessionId c)) s of
               None \<Rightarrow> Inr s
             | Some sess \<Rightarrow>
                 (case moderateContent masked (m_content payload) of
                    Inl err \<Rightarrow> Inl err
                  | Inr md \<Rightarrow>
                      let msg = payload\<lparr>m_content := content md, m_timestamp := now\<rparr>;
                          sess1 = sess\<lparr>messages := messages sess @ [msg]\<rparr>;
                          s1 = setInStore (''session:'' @ the (c_sessionId c)) sess1 s
                      in (case otherUserOf sess1 c of
                            None \<Rightarrow> Inr s1
                          | Some otherUser \<Rightarrow>
                              (case findClientByUser (uid otherUser) s1 of
                                 None \<Rightarrow> Inr s1
                               | Some (k, _) \<Rightarrow> Inr (send k (ChatMsg msg) s1))))))"

text \<open>
  The listener \<^verbatim>\<open>ws.on('message', ...)\<close> for a \<^verbatim>\<open>chat_message\<close>: an error raised by
  the handler is caught and answered on the socket of the sender. \<open>handleChatMessage\<close>
  raises before it has changed anything, so the state at the catch is \<open>s\<close>.
\<close>

definition onChatMessage ::
  "(string \<Rightarrow> string) \<Rightarrow> nat \<Rightarrow> string \<Rightarrow> message \<Rightarrow> server \<Rightarrow> server" where
  "onChatMessage masked now clientId payload s =
     (case handleChatMessage masked now clientId payload s of
        Inr s1 \<Rightarrow> s1
      | Inl err \<Rightarrow> send clientId (ErrorMsg ''Invalid message format'' None) s)"

text \<open>The payload of \<^verbatim>\<open>video_request\<close>: \<^verbatim>\<open>{requesterId, offer}\<close>.\<close>

record videopayload =
  p_requesterId :: string
  p_offer :: string

definition handleVideoRequest :: "string \<Rightarrow> videopayload \<Rightarrow> server \<Rightarrow> server" where
  "handleVideoRequest clientId payload s =
     (case getClient clientId s of
        None \<Rightarrow> s
      | Some c \<Rightarrow>
          if \<not> truthy (c_sessionId c) then s
          else
            (case getFromStore (''session:'' @ the (c_sessionId c)) s of
               None \<Rightarrow> s
             | Some sess \<Rightarrow>
                 let sess1 = sess\<lparr>videoRequested :=
                               Some \<lparr>v_requesterId = Some (p_requesterId payload),
                                     v_status = Pending\<rparr>\<rparr>;
                     s1 = setInStore (''session:'' @ the (c_sessionId c)) sess1 s
                 in (case otherUserOf sess1 c of
                       None \<Rightarrow> s1
                     | Some otherUser \<Rightarrow>
                         (case findClientByUser (uid otherUser) s1 of
                            None \<Rightarrow> s1
                          | Some (k, _) \<Rightarrow>
                              send k (VideoRequest (p_requesterId payload) (p_offer payload))
                                s1))))"

section \<open>\<^verbatim>\<open>POST /api/report\<close>\<close>

text \<open>The fields the handler reads from \<^verbatim>\<open>req.body\<close>; each may be missing.\<close>

record reportbody =
  b_sessionId :: "string option"
  b_reason :: "string option"
  b_messages :: "message list option"

text \<open>The answers of the route: \<^verbatim>\<open>{success, message}\<close>, and \<^verbatim>\<open>{error}\<close> with
  status 429 or 500.\<close>

datatype response = Json200 bool string | Json429 string | Json500 string

subsection \<open>Rate limiting\<close>

text \<open>
  Modelled from the spec: the middleware \<^verbatim>\<open>rateLimit\<close> of the package
  \<^verbatim>\<open>express-rate-limit\<close> is not part of the repository. Section 4.6 has it as
  per-client-address sliding windows: a request is admitted while the address has fewer
  than \<open>maxHits\<close> admitted requests within the last \<open>windowMs\<close> milliseconds, and is
  otherwise rejected with a rate-limit error and no other effect. \<open>hits\<close> are the
  admitted requests, address and time in milliseconds.
\<close>

definition admitted :: "int \<Rightarrow> nat \<Rightarrow> string \<Rightarrow> int \<Rightarrow> (string \<times> int) list \<Rightarrow> bool" where
  "admitted windowMs maxHits ip now hits =
     (length (filter (\<lambda>(k, t). k = ip \<and> now < t + windowMs) hits) < maxHits)"

definition rateLimit ::
  "int \<Rightarrow> nat \<Rightarrow> string \<Rightarrow> int \<Rightarrow> (string \<times> int) list \<Rightarrow> bool \<times> (string \<times> int) list" where
  "rateLimit windowMs maxHits ip now hits =
     (if admitted windowMs maxHits ip now hits then (True, hits @ [(ip, now)]) else (False, hits))"

text \<open>The stores of the limiters mounted on \<^verbatim>\<open>/api/\<close> (100 requests in 15 minutes)
  and on \<^verbatim>\<open>/api/report\<close> (5 in an hour); the one on \<^verbatim>\<open>/api/match\<close> does not see
  this route.\<close>

record limiters =
  apiHits :: "(string \<times> int) list"
  reportHits :: "(string \<times> int) list"

text \<open>The answer of \<^verbatim>\<open>createRateLimit\<close>: its \<^verbatim>\<open>message\<close> option.\<close>

definition tooManyRequests :: response where
  "tooManyRequests = Json429 ''Too many requests, please try again later.''"

subsection \<open>The handler\<close>

text \<open>
  \<open>rid\<close>, \<open>now\<close> and \<open>ip\<close> are \<^verbatim>\<open>uuidv4()\<close>, \<^verbatim>\<open>Date.now()\<close> and
  \<^verbatim>\<open>req.ip\<close>. \<open>body\<close> is \<open>None\<close> when \<^verbatim>\<open>req.body\<close> is undefined, where the
  destructuring raises; \<open>redisUp\<close> says whether \<^verbatim>\<open>redisClient.lPush\<close> succeeds. Both
  errors end in the \<^verbatim>\<open>catch\<close> branch.
\<close>

definition postReport ::
  "string \<Rightarrow> int \<Rightarrow> string \<Rightarrow> bool \<Rightarrow> reportbody option \<Rightarrow> server \<Rightarrow> response \<times> server" where
  "postReport rid now ip redisUp body s =
     (case body of
        None \<Rightarrow> (Json500 ''Failed to submit report'', s)
      | Some b \<Rightarrow>
          let rep = \<lparr>r_id = rid, r_sessionId = b_sessionId b, r_reason = b_reason b,
                     r_messages = (case b_messages b of None \<Rightarrow> [] | Some ms \<Rightarrow> ms),
                     r_timestamp = now, r_ip = ip\<rparr>
          in if useRedis s then
               (if redisUp
                then (Json200 True ''Report submitted successfully'',
                      s\<lparr>redisReports := rep # redisReports s\<rparr>)
                else (Json500 ''Failed to submit report'', s))
             else (Json200 True ''Report submitted successfully'',
                   s\<lparr>reports := reports s @ [rep]\<rparr>))"

text \<open>
  The route as mounted: the limiter of \<^verbatim>\<open>/api/\<close>, then the limiter of
  \<^verbatim>\<open>/api/report\<close>, then the handler. A limiter that rejects answers itself and the
  request goes no further.
\<close>

definition apiReport ::
  "string \<Rightarrow> int \<Rightarrow> string \<Rightarrow> bool \<Rightarrow> reportbody option \<Rightarrow> limiters \<times> server \<Rightarrow>
     response \<times> limiters \<times> server" where
  "apiReport rid now ip redisUp body ls =
     (case ls of (l, s) \<Rightarrow>
        (case rateLimit (15 * 60 * 1000) 100 ip now (apiHits l) of
           (False, _) \<Rightarrow> (tooManyRequests, l, s)
         | (True, h1) \<Rightarrow>
             let l1 = l\<lparr>apiHits := h1\<rparr> in
             (case rateLimit (60 * 60 * 1000) 5 ip now (reportHits l1) of
                (False, _) \<Rightarrow> (tooManyRequests, l1, s)
              | (True, h2) \<Rightarrow>
                  (case postReport rid now ip redisUp body s of
                     (r, s1) \<Rightarrow> (r, l1\<lparr>reportHits := h2\<rparr>, s1)))))"

text \<open>The reports stored, whichever backend is in use.\<close>

definition storedReports :: "server \<Rightarrow> report list" where
  "storedReports s = (if useRedis s then redisReports s else reports s)"

section \<open>Example states\<close>

definition emptyServer :: "bool \<Rightarrow> server" where
  "emptyServer r =
     \<lparr>useRedis = r, queue = [], sessions = Map.empty, blockedPairs = {}, reports = [],
      matchingQueue = [], redisSessions = Map.empty, redisBlocked = {}, redisReports = [],
      clients = [], timers = []\<rparr>"

text \<open>\<^verbatim>\<open>clients.set(clientId, { ws, userId: null, sessionId: null })\<close> on connection.\<close>

definition connect :: "string \<Rightarrow> server \<Rightarrow> server" where
  "connect clientId s =
     s\<lparr>clients := clients s @ [(clientId, \<lparr>c_sent = [], c_userId = None, c_sessionId = None\<rparr>)]\<rparr>"

text \<open>Three users with the tag \<^verbatim>\<open>CS\<close>, and a queue the first two have joined in turn.\<close>

definition exA :: user where "exA = \<lparr>uid = ''a'', tags = [''CS'']\<rparr>"
definition exB :: user where "exB = \<lparr>uid = ''b'', tags = [''cs'']\<rparr>"
definition exC :: user where "exC = \<lparr>uid = ''c'', tags = [''CS'']\<rparr>"

definition twoWaiting :: "bool \<Rightarrow> server" where
  "twoWaiting r = addToQueue exB (addToQueue exA (emptyServer r))"

text \<open>A queue that holds an entry of the candidate \<open>exU\<close> itself, a user who has
  blocked the candidate, and a user who shares a tag with it.\<close>

definition exU :: user where "exU = \<lparr>uid = ''u1'', tags = [''CS'']\<rparr>"
definition exSelf :: user where "exSelf = \<lparr>uid = ''u1'', tags = [''CS'', ''Math'']\<rparr>"
definition exBlocked :: user where "exBlocked = \<lparr>uid = ''u2'', tags = [''CS'']\<rparr>"
definition exPeer :: user where "exPeer = \<lparr>uid = ''u3'', tags = [''cs'', ''Bio'']\<rparr>"

definition exServer :: "bool \<Rightarrow> server" where
  "exServer r = (emptyServer r)
     \<lparr>queue := [exSelf, exBlocked, exPeer], matchingQueue := [exPeer, exBlocked, exSelf],
      blockedPairs := {''u2:u1''}, redisBlocked := {''blocked:u2:u1''}\<rparr>"

text \<open>What the socket of the connection \<open>clientId\<close> has been sent so far.\<close>

definition sentTo :: "string \<Rightarrow> server \<Rightarrow> wsmsg list" where
  "sentTo clientId s = (case getClient clientId s of None \<Rightarrow> [] | Some c \<Rightarrow> c_sent c)"

text \<open>One connection \<open>c1\<close>, which joins as \<open>exA\<close> while nobody waits, and then
  leaves the queue.\<close>

definition oneClient :: "bool \<Rightarrow> server" where
  "oneClient r = connect ''c1'' (emptyServer r)"

definition exEnv :: env where
  "exEnv = \<lparr>e_sessionId = ''s1'', e_messageId = ''m1'', e_createdAt = 1000, e_timestamp = 1000\<rparr>"

definition joinedAlone :: "bool \<Rightarrow> server" where
  "joinedAlone r = handleJoinQueue exEnv ''c1'' exA (oneClient r)"

definition leftOnce :: "bool \<Rightarrow> server" where
  "leftOnce r =
     (case handleLeaveQueue ''c1'' (joinedAlone r) of Inr s \<Rightarrow> s | Inl _ \<Rightarrow> joinedAlone r)"

text \<open>Two connections: \<open>c2\<close> joins as \<open>exU2\<close> and waits, then \<open>c1\<close> joins as
  \<open>exU1\<close> and is matched with it; then \<open>c1\<close> asks for a video call.\<close>

definition exU1 :: user where "exU1 = \<lparr>uid = ''U1'', tags = [''CS'', ''Math'']\<rparr>"
definition exU2 :: user where "exU2 = \<lparr>uid = ''U2'', tags = [''math'', ''bio'']\<rparr>"

definition peerWaiting :: "bool \<Rightarrow> server" where
  "peerWaiting r =
     handleJoinQueue exEnv ''c2'' exU2 (connect ''c2'' (connect ''c1'' (emptyServer r)))"

definition matchedPair :: "bool \<Rightarrow> server" where
  "matchedPair r = handleJoinQueue exEnv ''c1'' exU1 (peerWaiting r)"

definition videoPending :: "bool \<Rightarrow> server" where
  "videoPending r =
     handleVideoRequest ''c1'' \<lparr>p_requesterId = ''U1'', p_offer = ''offer-1''\<rparr> (matchedPair r)"

text \<open>A chat message with no word character, as the input field of the client sends it.\<close>

definition exBang :: message where
  "exBang = \<lparr>m_id = ''m2'', m_content = ''!!!'', m_userId = ''U1'', m_timestamp = 0,
             m_type = TMessage\<rparr>"

text \<open>One address that posts the same report \<open>n\<close> times, a second apart, to a server
  that has started with no Redis.\<close>

definition exBody :: reportbody where
  "exBody = \<lparr>b_sessionId = Some ''no-such-session'', b_reason = Some ''spam'', b_messages = None\<rparr>"

definition noHits :: limiters where
  "noHits = \<lparr>apiHits = [], reportHits = []\<rparr>"

fun reportsPosted :: "nat \<Rightarrow> limiters \<times> server" where
  "reportsPosted 0 = (noHits, emptyServer False)"
| "reportsPosted (Suc n) =
     snd (apiReport ''r'' (1000 * int n) ''10.0.0.1'' True (Some exBody) (reportsPosted n))"

section \<open>Auxiliary notions for the proofs\<close>

text \<open>What \<open>isBlocked\<close> reads of the state.\<close>

definition blockView :: "server \<Rightarrow> bool \<times> string set \<times> string set" where
  "blockView s = (useRedis s, blockedPairs s, redisBlocked s)"

text \<open>The entries the matchmaker may hold for a candidate \<open>u\<close>.\<close>

definition allowed :: "server \<Rightarrow> user \<Rightarrow> user \<Rightarrow> bool" where
  "allowed s u p = (uid p \<noteq> uid u \<and> \<not> isBlocked s (uid u) (uid p))"

section \<open>The wait queue\<close>

lemma pop_last_Some: "pop_last q = (Some x, q') \<Longrightarrow> q = q' @ [x]"
  by (cases q) (auto split: if_splits)

lemma pop_last_None: "pop_last q = (None, q') \<Longrightarrow> q = [] \<and> q' = []"
  by (cases q) auto

lemma pop_last_snoc: "pop_last (q @ [x]) = (Some x, q)"
proof (cases "q @ [x]")
  case Nil then show ?thesis by simp
next
  case (Cons a list)
  have "last (a # list) = x" "butlast (a # list) = q"
    unfolding Cons[symmetric] by simp_all
  then show ?thesis unfolding Cons by simp
qed

lemma isBlocked_view: "blockView s' = blockView s \<Longrightarrow> isBlocked s' a b = isBlocked s a b"
  by (simp add: isBlocked_def blockView_def)

lemma getFromQueue_Some:
  assumes "getFromQueue s = (Some x, s')"
  shows "waiting s = waiting s' @ [x]" and "blockView s' = blockView s"
  using assms
  by (auto simp: getFromQueue_def waiting_def blockView_def split: if_splits prod.splits
      dest: pop_last_Some)

lemma getFromQueue_None:
  assumes "getFromQueue s = (None, s')"
  shows "waiting s' = waiting s" and "blockView s' = blockView s"
  using assms
  by (auto simp: getFromQueue_def waiting_def blockView_def split: if_splits prod.splits
      dest: pop_last_None)

lemma addToQueue_mset: "mset (waiting (addToQueue x s)) = add_mset x (mset (waiting s))"
  by (simp add: addToQueue_def waiting_def)

lemma addToQueue_view: "blockView (addToQueue x s) = blockView s"
  by (simp add: addToQueue_def blockView_def)

lemma allowed_view: "blockView s' = blockView s \<Longrightarrow> allowed s' u p = allowed s u p"
  using isBlocked_view[of s' s] by (simp add: allowed_def)

lemma drain_inv:
  "drain n u ms s = (ms', s') \<Longrightarrow>
     blockView s' = blockView s \<and>
     mset (waiting s') + mset (map h_user ms') = mset (waiting s) + mset (map h_user ms) \<and>
     (\<forall>m \<in> set ms'. m \<in> set ms \<or> (allowed s u (h_user m) \<and> 0 < score m))"
proof (induction n arbitrary: ms s)
  case 0
  then show ?case by simp
next
  case (Suc n)
  obtain r s1 where g: "getFromQueue s = (r, s1)" by (cases "getFromQueue s")
  show ?case
  proof (cases r)
    case None
    have "ms' = ms" "s' = s1" using Suc.prems g None by simp_all
    then show ?thesis using getFromQueue_None[OF g[unfolded None]] by simp
  next
    case (Some p)
    have w: "waiting s = waiting s1 @ [p]" and v: "blockView s1 = blockView s"
      using getFromQueue_Some[OF g[unfolded Some]] by simp_all
    have ms: "mset (waiting s) = add_mset p (mset (waiting s1))"
      by (simp add: w)
    let ?sc = "calculateMatchScore (tags u) (tags p)"
    show ?thesis
    proof (cases "allowed s u p \<and> 0 < ?sc")
      case True
      have "\<not> (uid p = uid u \<or> isBlocked s1 (uid u) (uid p))"
        using True allowed_view[OF v, of u p] by (simp add: allowed_def)
      then have d: "drain n u (ms @ [\<lparr>h_user = p, score = ?sc\<rparr>]) s1 = (ms', s')"
        using Suc.prems g Some True by (simp add: Let_def)
      note ih0 = Suc.IH[OF d]
      note ih = ih0[THEN conjunct1] ih0[THEN conjunct2, THEN conjunct1]
        ih0[THEN conjunct2, THEN conjunct2]
      have 1: "blockView s' = blockView s" using ih(1) v by simp
      have 2: "mset (waiting s') + mset (map h_user ms') =
                 mset (waiting s) + mset (map h_user ms)"
        using ih(2) by (simp add: ms)
      have 3: "\<forall>m \<in> set ms'. m \<in> set ms \<or> (allowed s u (h_user m) \<and> 0 < score m)"
      proof
        fix m assume "m \<in> set ms'"
        with ih(3) have "m \<in> set ms \<or> m = \<lparr>h_user = p, score = ?sc\<rparr> \<or>
            (allowed s1 u (h_user m) \<and> 0 < score m)" by auto
        then show "m \<in> set ms \<or> (allowed s u (h_user m) \<and> 0 < score m)"
          using True allowed_view[OF v] by auto
      qed
      show ?thesis by (intro conjI 1 2 3)
    next
      case False
      have "uid p = uid u \<or> isBlocked s1 (uid u) (uid p) \<or> \<not> 0 < ?sc"
        using False allowed_view[OF v, of u p] by (auto simp: allowed_def)
      then have d: "drain n u ms (addToQueue p s1) = (ms', s')"
        using Suc.prems g Some
        by (cases "uid p = uid u \<or> isBlocked s1 (uid u) (uid p)") (simp_all add: Let_def)
      have v2: "blockView (addToQueue p s1) = blockView s"
        using v by (simp add: addToQueue_view)
      note ih0 = Suc.IH[OF d]
      note ih = ih0[THEN conjunct1] ih0[THEN conjunct2, THEN conjunct1]
        ih0[THEN conjunct2, THEN conjunct2]
      have 1: "blockView s' = blockView s" using ih(1) v2 by simp
      have 2: "mset (waiting s') + mset (map h_user ms') =
                 mset (waiting s) + mset (map h_user ms)"
        using ih(2) by (simp add: ms addToQueue_mset)
      have 3: "\<forall>m \<in> set ms'. m \<in> set ms \<or> (allowed s u (h_user m) \<and> 0 < score m)"
        using ih(3) allowed_view[OF v2] by simp
      show ?thesis by (intro conjI 1 2 3)
    qed
  qed
qed


lemma removeLoop_rotate:
  "removeLoop (length b) userId (pre @ b) = Inr (filter (\<lambda>x. uid x \<noteq> userId) b @ pre)"
proof (induction b arbitrary: pre rule: rev_induct)
  case Nil
  then show ?case by simp
next
  case (snoc z b)
  have p: "pop_last (pre @ b @ [z]) = (Some z, pre @ b)"
    using pop_last_snoc[of "pre @ b" z] by simp
  show ?case
  proof (cases "uid z \<noteq> userId")
    case True
    then have "removeLoop (length (b @ [z])) userId (pre @ b @ [z]) =
               removeLoop (length b) userId ((z # pre) @ b)"
      using p by simp
    also have "\<dots> = Inr (filter (\<lambda>x. uid x \<noteq> userId) b @ (z # pre))"
      by (rule snoc.IH)
    finally show ?thesis using True by simp
  next
    case False
    then have "removeLoop (length (b @ [z])) userId (pre @ b @ [z]) =
               removeLoop (length b) userId (pre @ b)"
      using p by simp
    also have "\<dots> = Inr (filter (\<lambda>x. uid x \<noteq> userId) b @ pre)"
      by (rule snoc.IH)
    finally show ?thesis using False by simp
  qed
qed

lemma removeLoop_filter:
  "removeLoop (length q) userId q = Inr (filter (\<lambda>x. uid x \<noteq> userId) q)"
  using removeLoop_rotate[of q userId "[]"] by simp

lemma spliceFirst_absent: "userId \<notin> uid ` set q \<Longrightarrow> spliceFirst userId q = q"
  by (induction q) auto

lemma removeFromQueue_absent:
  assumes "userId \<notin> uid ` set (waiting s)"
  shows "removeFromQueue userId s = Inr s"
proof (cases "useRedis s")
  case True
  have "filter (\<lambda>x. uid x \<noteq> userId) (matchingQueue s) = matchingQueue s"
    using assms True by (auto simp: waiting_def filter_id_conv)
  then show ?thesis using True by (simp add: removeFromQueue_def removeLoop_filter)
next
  case False
  then show ?thesis using assms by (simp add: removeFromQueue_def waiting_def spliceFirst_absent)
qed

text \<open>
  C9, as the code has it. In memory, \<open>addToQueue\<close> and \<open>getFromQueue\<close> work at the same
  end of the array, so a pop right after a push gives the pushed entry back and leaves the
  state as it was (last in, first out). On Redis the push is at the head and the pop at
  the tail: a pop right after a push gives the oldest entry of the list (first in, first
  out), which is the pushed one only when the list was empty.
\<close>

theorem queue_ends:
  "(\<not> useRedis s \<longrightarrow> getFromQueue (addToQueue u s) = (Some u, s)) \<and>
   (useRedis s \<longrightarrow>
      fst (getFromQueue (addToQueue u s)) = Some (last (u # matchingQueue s)) \<and>
      matchingQueue (snd (getFromQueue (addToQueue u s))) = butlast (u # matchingQueue s))"
proof (intro conjI impI)
  assume m: "\<not> useRedis s"
  have "pop_last (queue s @ [u]) = (Some u, queue s)" by (rule pop_last_snoc)
  then show "getFromQueue (addToQueue u s) = (Some u, s)"
    using m by (simp add: getFromQueue_def addToQueue_def)
next
  assume r: "useRedis s"
  then show "fst (getFromQueue (addToQueue u s)) = Some (last (u # matchingQueue s))"
    by (simp add: getFromQueue_def addToQueue_def del: last.simps butlast.simps)
next
  assume r: "useRedis s"
  then show "matchingQueue (snd (getFromQueue (addToQueue u s))) = butlast (u # matchingQueue s)"
    by (simp add: getFromQueue_def addToQueue_def del: last.simps butlast.simps)
qed

text \<open>An instance on each backend: \<open>exA\<close> is pushed, then \<open>exB\<close>, then one entry is popped.\<close>

theorem queue_ends_witness:
  "\<not> useRedis (emptyServer False) \<and>
   fst (getFromQueue (addToQueue exB (addToQueue exA (emptyServer False)))) = Some exB \<and>
   useRedis (emptyServer True) \<and>
   fst (getFromQueue (addToQueue exB (addToQueue exA (emptyServer True)))) = Some exA"
proof -
  have m: "\<not> useRedis (addToQueue exA (emptyServer False))" by code_simp
  have r: "useRedis (addToQueue exA (emptyServer True))" by code_simp
  have l: "last (exB # matchingQueue (addToQueue exA (emptyServer True))) = exA" by code_simp
  have e: "\<not> useRedis (emptyServer False)" "useRedis (emptyServer True)" by code_simp+
  from queue_ends[of "addToQueue exA (emptyServer False)" exB]
       queue_ends[of "addToQueue exA (emptyServer True)" exB] m r l e
  show ?thesis by simp
qed

text \<open>C9 as stated fails on Redis: after \<open>exA\<close> and \<open>exB\<close> have been pushed, the pop
  does not give \<open>exB\<close>, the entry pushed last.\<close>

theorem lifo_on_redis_counterexample:
  "fst (getFromQueue (addToQueue exB (addToQueue exA (emptyServer True)))) \<noteq> Some exB"
  by code_simp

section \<open>The matchmaker\<close>

lemma sortMatches_set: "set (sortMatches ms) = set ms"
  by (simp add: sortMatches_def)

text \<open>
  C2: whatever the candidate \<open>u\<close> and the state, an entry \<open>findMatch\<close> returns was
  waiting in the queue, has another id than the candidate and is not blocked against it in
  either direction; and every entry that is the candidate's own or blocked against it is in
  the queue after the call as many times as before.
\<close>

theorem findMatch_excludes:
  assumes "findMatch u s = (r, s')"
  shows "(\<forall>e. r = Some e \<longrightarrow>
            e \<in> set (waiting s) \<and> uid e \<noteq> uid u \<and> \<not> isBlocked s (uid u) (uid e)) \<and>
         (\<forall>p::user. uid p = uid u \<or> isBlocked s (uid u) (uid p) \<longrightarrow>
            count (mset (waiting s')) p = count (mset (waiting s)) p)"
proof -
  obtain ms s1 where d: "drain (getQueueLength s) u [] s = (ms, s1)"
    by (cases "drain (getQueueLength s) u [] s")
  note inv0 = drain_inv[OF d]
  have bal: "mset (waiting s1) + mset (map h_user ms) = mset (waiting s)"
    using inv0[THEN conjunct2, THEN conjunct1] by simp
  have ok: "\<forall>m \<in> set ms. allowed s u (h_user m)"
    using inv0[THEN conjunct2, THEN conjunct2] by simp
  have s': "s' = s1"
    using assms d by (simp add: findMatch_def split: list.splits)
  have res: "r = Some e \<Longrightarrow> \<exists>m \<in> set ms. e = h_user m" for e
  proof -
    assume "r = Some e"
    then obtain m rest where "sortMatches ms = m # rest" "e = h_user m"
      using assms d by (auto simp: findMatch_def split: list.splits)
    then have "m \<in> set ms" using sortMatches_set[of ms] by (metis list.set_intros(1))
    with \<open>e = h_user m\<close> show ?thesis by blast
  qed
  have part1: "\<forall>e. r = Some e \<longrightarrow>
            e \<in> set (waiting s) \<and> uid e \<noteq> uid u \<and> \<not> isBlocked s (uid u) (uid e)"
  proof (intro allI impI)
    fix e assume "r = Some e"
    then obtain m where m: "m \<in> set ms" "e = h_user m" using res by blast
    have "e \<in># mset (waiting s1) + mset (map h_user ms)" using m by simp
    then have "e \<in> set (waiting s)" unfolding bal by simp
    moreover have "allowed s u e" using ok m by simp
    ultimately show "e \<in> set (waiting s) \<and> uid e \<noteq> uid u \<and> \<not> isBlocked s (uid u) (uid e)"
      by (simp add: allowed_def)
  qed
  have part2: "\<forall>p::user. uid p = uid u \<or> isBlocked s (uid u) (uid p) \<longrightarrow>
            count (mset (waiting s')) p = count (mset (waiting s)) p"
  proof (intro allI impI)
    fix p :: user assume ex: "uid p = uid u \<or> isBlocked s (uid u) (uid p)"
    have "p \<notin> set (map h_user ms)"
    proof
      assume "p \<in> set (map h_user ms)"
      then obtain m where "m \<in> set ms" "p = h_user m" by auto
      then have "allowed s u p" using ok by simp
      with ex show False by (simp add: allowed_def)
    qed
    then have "count (mset (map h_user ms)) p = 0"
      by (simp add: count_eq_zero_iff)
    moreover have "count (mset (waiting s1)) p + count (mset (map h_user ms)) p =
        count (mset (waiting s)) p"
      using arg_cong[OF bal, of "\<lambda>M. count M p"] by simp
    ultimately show "count (mset (waiting s')) p = count (mset (waiting s)) p"
      using s' by simp
  qed
  show ?thesis using part1 part2 by (rule conjI)
qed

text \<open>An instance: the queue of \<open>exServer\<close> holds an entry of the candidate, a user
  who blocked the candidate and a peer; the peer is returned and the other two stay.\<close>

theorem findMatch_excludes_witness:
  "fst (findMatch exU (exServer False)) = Some exPeer \<and>
   exPeer \<in> set (waiting (exServer False)) \<and> uid exPeer \<noteq> uid exU \<and>
   \<not> isBlocked (exServer False) (uid exU) (uid exPeer) \<and>
   isBlocked (exServer False) (uid exU) (uid exBlocked) \<and>
   count (mset (waiting (snd (findMatch exU (exServer False))))) exBlocked = 1 \<and>
   count (mset (waiting (snd (findMatch exU (exServer False))))) exSelf = 1"
proof -
  have r: "fst (findMatch exU (exServer False)) = Some exPeer" by code_simp
  have b: "isBlocked (exServer False) (uid exU) (uid exBlocked)" by code_simp
  have i: "uid exSelf = uid exU" by code_simp
  have c: "count (mset (waiting (exServer False))) exBlocked = 1"
          "count (mset (waiting (exServer False))) exSelf = 1" by code_simp+
  have p: "findMatch exU (exServer False) =
        (fst (findMatch exU (exServer False)), snd (findMatch exU (exServer False)))" by simp
  note t = findMatch_excludes[OF p]
  show ?thesis using t r b i c by simp
qed

text \<open>
  C1, evaluated where it fails: two users wait and both share a tag with the candidate
  \<open>exC\<close>. \<open>findMatch\<close> returns one of them and the queue is empty afterwards, on either
  backend: the entry that was held and not chosen is not put back.
\<close>

theorem findMatch_drops_held:
  "length (waiting (twoWaiting False)) = 2 \<and>
   fst (findMatch exC (twoWaiting False)) = Some exB \<and>
   waiting (snd (findMatch exC (twoWaiting False))) = [] \<and>
   length (waiting (twoWaiting True)) = 2 \<and>
   fst (findMatch exC (twoWaiting True)) = Some exA \<and>
   waiting (snd (findMatch exC (twoWaiting True))) = []"
  by code_simp

section \<open>Connection registry and session store\<close>

lemma getClient_updClient:
  "getClient k (updClient cid f s) =
     (if k = cid then map_option f (getClient k s) else getClient k s)"
proof -
  have "map_of (map (\<lambda>(k, c). if k = cid then (k, f c) else (k, c)) xs) k =
        (if k = cid then map_option f (map_of xs k) else map_of xs k)" for xs
    by (induction xs) auto
  then show ?thesis by (simp add: getClient_def updClient_def)
qed

lemma getClient_send:
  "getClient k (send cid m s) =
     (if k = cid then map_option (\<lambda>c. c\<lparr>c_sent := c_sent c @ [m]\<rparr>) (getClient k s)
      else getClient k s)"
  by (simp add: send_def getClient_updClient)

lemma getFromStore_updClient: "getFromStore key (updClient cid f s) = getFromStore key s"
  by (simp add: getFromStore_def updClient_def)

lemma getFromStore_send: "getFromStore key (send cid m s) = getFromStore key s"
  by (simp add: send_def getFromStore_updClient)

lemma getFromStore_setInStore: "getFromStore key (setInStore key v s) = Some v"
  by (simp add: getFromStore_def setInStore_def)

lemma getClient_setInStore: "getClient k (setInStore key v s) = getClient k s"
  by (simp add: getClient_def setInStore_def)

lemma findClientByUser_setInStore:
  "findClientByUser i (setInStore key v s) = findClientByUser i s"
  by (simp add: findClientByUser_def setInStore_def)

lemma waiting_updClient: "waiting (updClient cid f s) = waiting s"
  by (simp add: waiting_def updClient_def)

lemma waiting_send: "waiting (send cid m s) = waiting s"
  by (simp add: send_def waiting_updClient)

lemma getFromQueue_updClient:
  "getFromQueue (updClient cid f s) =
     (fst (getFromQueue s), updClient cid f (snd (getFromQueue s)))"
  by (simp add: getFromQueue_def updClient_def split: prod.splits)

lemma addToQueue_updClient: "addToQueue p (updClient cid f s) = updClient cid f (addToQueue p s)"
  by (simp add: addToQueue_def updClient_def)

lemma isBlocked_updClient: "isBlocked (updClient cid f s) a b = isBlocked s a b"
  by (simp add: isBlocked_def updClient_def)

lemma drain_updClient:
  "drain n u ms (updClient cid f s) =
     (fst (drain n u ms s), updClient cid f (snd (drain n u ms s)))"
proof (induction n arbitrary: ms s)
  case 0
  then show ?case by simp
next
  case (Suc n)
  obtain r s1 where g: "getFromQueue s = (r, s1)" by (cases "getFromQueue s")
  then have g': "getFromQueue (updClient cid f s) = (r, updClient cid f s1)"
    by (simp add: getFromQueue_updClient)
  show ?case
  proof (cases r)
    case None
    then show ?thesis using g g' by simp
  next
    case (Some p)
    then show ?thesis using g g'
      by (simp add: Let_def isBlocked_updClient Suc.IH addToQueue_updClient)
  qed
qed

lemma findMatch_updClient:
  "findMatch u (updClient cid f s) =
     (fst (findMatch u s), updClient cid f (snd (findMatch u s)))"
proof -
  have l: "getQueueLength (updClient cid f s) = getQueueLength s"
    by (simp add: getQueueLength_def updClient_def)
  show ?thesis
    by (simp add: findMatch_def l drain_updClient split: prod.splits list.splits)
qed

lemma findClientByUser_getClient:
  assumes "findClientByUser i s = Some (k, pc)" and "distinct (map fst (clients s))"
  shows "getClient k s = Some pc"
proof -
  have "(k, pc) \<in> set (clients s)"
    using assms(1) unfolding findClientByUser_def find_Some_iff by (metis nth_mem)
  then show ?thesis using assms(2) by (simp add: getClient_def)
qed

section \<open>Joining and leaving the queue\<close>

text \<open>
  C8, as the code has it. On a connection whose user id is null or the empty string (it
  has never joined, or has joined with the id \<^verbatim>\<open>''\<close>) \<open>handleLeaveQueue\<close> returns at
  its guard: the state is unchanged and nothing is sent. On a connection whose user id is a
  non-empty string and has no entry in the queue, the queue is unchanged and
  \<^verbatim>\<open>queue_left\<close> with \<^verbatim>\<open>success: true\<close> is sent to the caller, on either backend.
\<close>

theorem leave_when_not_queued:
  assumes "getClient clientId s = Some c"
  shows "(\<not> truthy (c_userId c) \<longrightarrow> handleLeaveQueue clientId s = Inr s) \<and>
         (truthy (c_userId c) \<and> the (c_userId c) \<notin> uid ` set (waiting s) \<longrightarrow>
            handleLeaveQueue clientId s = Inr (send clientId (QueueLeft True) s) \<and>
            waiting (send clientId (QueueLeft True) s) = waiting s \<and>
            getClient clientId (send clientId (QueueLeft True) s) =
              Some (c\<lparr>c_sent := c_sent c @ [QueueLeft True]\<rparr>))"
  using assms
  by (simp add: handleLeaveQueue_def removeFromQueue_absent waiting_send getClient_send)

text \<open>Both cases on Redis: a connection that never joined, and one that joined, left and
  sends \<^verbatim>\<open>leave_queue\<close> once more.\<close>

theorem leave_when_not_queued_witness:
  "getClient ''c1'' (oneClient True) = Some \<lparr>c_sent = [], c_userId = None, c_sessionId = None\<rparr> \<and>
   handleLeaveQueue ''c1'' (oneClient True) = Inr (oneClient True) \<and>
   getClient ''c1'' (leftOnce True) =
     Some \<lparr>c_sent = [QueueLeft True], c_userId = Some ''a'', c_sessionId = None\<rparr> \<and>
   ''a'' \<notin> uid ` set (waiting (leftOnce True)) \<and>
   handleLeaveQueue ''c1'' (leftOnce True) = Inr (send ''c1'' (QueueLeft True) (leftOnce True)) \<and>
   waiting (send ''c1'' (QueueLeft True) (leftOnce True)) = waiting (leftOnce True) \<and>
   sentTo ''c1'' (send ''c1'' (QueueLeft True) (leftOnce True)) = [QueueLeft True, QueueLeft True]"
proof -
  have a: "getClient ''c1'' (oneClient True) =
             Some \<lparr>c_sent = [], c_userId = None, c_sessionId = None\<rparr>" by code_simp
  have b: "getClient ''c1'' (leftOnce True) =
     Some \<lparr>c_sent = [QueueLeft True], c_userId = Some ''a'', c_sessionId = None\<rparr>" by code_simp
  have c: "''a'' \<notin> uid ` set (waiting (leftOnce True))" by code_simp
  have d: "sentTo ''c1'' (send ''c1'' (QueueLeft True) (leftOnce True)) =
             [QueueLeft True, QueueLeft True]" by code_simp
  from leave_when_not_queued[OF a] leave_when_not_queued[OF b] a b c d
  show ?thesis by simp
qed

text \<open>C8 as stated fails for a connection that never joined: the handler leaves the
  state as it is, and the connection has been sent nothing.\<close>

theorem leave_never_joined_counterexample:
  "handleLeaveQueue ''c1'' (oneClient False) = Inr (oneClient False) \<and>
   sentTo ''c1'' (oneClient False) = []"
  by (simp add: handleLeaveQueue_def getClient_def oneClient_def connect_def emptyServer_def
      sentTo_def)

text \<open>
  C7, evaluated where it fails: \<open>c1\<close> joins, is queued with the timer armed, and leaves
  the queue, which is then empty. When the timer fires, the connection is still registered
  and has no session, so the no-match notice is sent after \<^verbatim>\<open>queue_left\<close>.
\<close>

theorem stale_timeout_still_notifies:
  "waiting (joinedAlone False) = [exA] \<and> timers (joinedAlone False) = [''c1''] \<and>
   waiting (leftOnce False) = [] \<and> sentTo ''c1'' (leftOnce False) = [QueueLeft True] \<and>
   sentTo ''c1'' (fireTimeout ''c1'' (leftOnce False)) = [QueueLeft True, noMatchNotice]"
  by code_simp

text \<open>
  C5, evaluated where it fails: the user \<open>exA\<close> waits and joins again. \<open>findMatch\<close>
  puts the entry of the same id back and \<open>handleJoinQueue\<close> adds another one: the queue
  holds two entries with that id, on either backend.
\<close>

theorem rejoin_duplicates_entry:
  "waiting (joinedAlone False) = [exA] \<and>
   waiting (handleJoinQueue exEnv ''c1'' exA (joinedAlone False)) = [exA, exA] \<and>
   waiting (joinedAlone True) = [exA] \<and>
   waiting (handleJoinQueue exEnv ''c1'' exA (joinedAlone True)) = [exA, exA]"
  by code_simp

section \<open>Sessions\<close>

lemma set_newSet: "set (newSet xs) = set xs"
  by simp

lemma getSharedTags_filter:
  "getSharedTags tags1 tags2 =
     filter (\<lambda>t. toLowerCase t \<in> toLowerCase ` set tags2) tags1"
proof -
  have "toLowerCase t \<in> set (filter (\<lambda>tag. tag \<in> set (newSet (map toLowerCase tags2)))
            (newSet (map toLowerCase tags1))) \<longleftrightarrow>
        toLowerCase t \<in> toLowerCase ` set tags2" if "t \<in> set tags1" for t
    using that by (simp del: newSet.simps add: set_newSet)
  then show ?thesis
    unfolding getSharedTags_def Let_def by (intro filter_cong) simp_all
qed

lemma join_stores_session:
  assumes "getClient clientId s \<noteq> None" and "fst (findMatch u s) = Some m"
  shows "getFromStore (''session:'' @ e_sessionId e) (handleJoinQueue e clientId u s) =
           Some (newSession e u m)"
proof -
  obtain c where c: "getClient clientId s = Some c" using assms(1) by blast
  let ?s1 = "updClient clientId (\<lambda>c. c\<lparr>c_userId := Some (uid u)\<rparr>) s"
  have f: "findMatch u ?s1 =
      (Some m, updClient clientId (\<lambda>c. c\<lparr>c_userId := Some (uid u)\<rparr>) (snd (findMatch u s)))"
    using assms(2) by (simp add: findMatch_updClient)
  show ?thesis
    unfolding handleJoinQueue_def c
    by (simp add: f Let_def getFromStore_send getFromStore_updClient getFromStore_setInStore
        split: option.splits prod.splits)
qed

text \<open>
  C3: \<open>getSharedTags tags1 tags2\<close> is \<open>tags1\<close> filtered, in its order and casing, by
  whether the lower-cased tag occurs among the lower-cased \<open>tags2\<close>; for
  \<^verbatim>\<open>[CS, Math]\<close> and \<^verbatim>\<open>[math, bio]\<close> it is \<^verbatim>\<open>[Math]\<close>. When a registered
  connection joins and \<open>findMatch\<close> finds \<open>m\<close>, the session stored is
  \<open>newSession e u m\<close>: its users are the two, its shared tags are those of the two tag
  lists, and its messages are exactly one system message.
\<close>

theorem sharedTags_of_new_session:
  "getSharedTags tags1 tags2 =
     filter (\<lambda>t. toLowerCase t \<in> toLowerCase ` set tags2) tags1 \<and>
   getSharedTags [''CS'', ''Math''] [''math'', ''bio''] = [''Math''] \<and>
   (getClient clientId s \<noteq> None \<and> fst (findMatch u s) = Some m \<longrightarrow>
      getFromStore (''session:'' @ e_sessionId e) (handleJoinQueue e clientId u s) =
        Some (newSession e u m) \<and>
      users (newSession e u m) = [u, m] \<and>
      sharedTags (newSession e u m) = getSharedTags (tags u) (tags m) \<and>
      map m_type (messages (newSession e u m)) = [TSystem])"
proof (intro conjI impI)
  show "getSharedTags tags1 tags2 =
     filter (\<lambda>t. toLowerCase t \<in> toLowerCase ` set tags2) tags1"
    by (rule getSharedTags_filter)
  show "getSharedTags [''CS'', ''Math''] [''math'', ''bio''] = [''Math'']"
    by code_simp
next
  assume "getClient clientId s \<noteq> None \<and> fst (findMatch u s) = Some m"
  then show "getFromStore (''session:'' @ e_sessionId e) (handleJoinQueue e clientId u s) =
        Some (newSession e u m)"
    using join_stores_session by blast
qed (simp_all add: newSession_def Let_def)

text \<open>An instance: \<open>exU2\<close> waits, \<open>exU1\<close> joins on \<open>c1\<close> and the session is stored.\<close>

theorem sharedTags_of_new_session_witness:
  "getClient ''c1'' (peerWaiting False) \<noteq> None \<and>
   fst (findMatch exU1 (peerWaiting False)) = Some exU2 \<and>
   tags exU1 = [''CS'', ''Math''] \<and> tags exU2 = [''math'', ''bio''] \<and>
   map_option sharedTags (getFromStore ''session:s1'' (matchedPair False)) = Some [''Math''] \<and>
   map_option (map m_type \<circ> messages) (getFromStore ''session:s1'' (matchedPair False)) =
     Some [TSystem]"
proof -
  have a: "getClient ''c1'' (peerWaiting False) \<noteq> None" by code_simp
  have b: "fst (findMatch exU1 (peerWaiting False)) = Some exU2" by code_simp
  have c: "tags exU1 = [''CS'', ''Math'']" "tags exU2 = [''math'', ''bio'']" by code_simp+
  have k: "''session:'' @ e_sessionId exEnv = ''session:s1''" by code_simp
  note t = sharedTags_of_new_session[of "tags exU1" "tags exU2" "''c1''" "peerWaiting False"
      exU1 exU2 exEnv]
  have d: "getFromStore ''session:s1'' (matchedPair False) = Some (newSession exEnv exU1 exU2)"
    using t a b unfolding k matchedPair_def by blast
  have e: "sharedTags (newSession exEnv exU1 exU2) = [''Math'']"
    by code_simp
  have f: "map m_type (messages (newSession exEnv exU1 exU2)) = [TSystem]"
    using t a b by blast
  show ?thesis using a b c d e f by simp
qed

text \<open>
  C6, evaluated where it fails: the request of \<open>U1\<close> is stored as pending, and \<open>U2\<close>
  sends a request of its own. \<open>handleVideoRequest\<close> has no look at the stored status: the
  stored requester is \<open>U2\<close> afterwards, and the new offer has been sent on to \<open>c1\<close>.
\<close>

theorem pending_video_request_overwritten:
  "map_option videoRequested (getFromStore ''session:s1'' (videoPending False)) =
     Some (Some \<lparr>v_requesterId = Some ''U1'', v_status = Pending\<rparr>) \<and>
   map_option videoRequested (getFromStore ''session:s1''
       (handleVideoRequest ''c2'' \<lparr>p_requesterId = ''U2'', p_offer = ''offer-2''\<rparr>
          (videoPending False))) =
     Some (Some \<lparr>v_requesterId = Some ''U2'', v_status = Pending\<rparr>) \<and>
   last (sentTo ''c1''
       (handleVideoRequest ''c2'' \<lparr>p_requesterId = ''U2'', p_offer = ''offer-2''\<rparr>
          (videoPending False))) = VideoRequest ''U2'' ''offer-2'' \<and>
   map_option videoRequested (getFromStore ''session:s1''
       (handleVideoRequest ''c2'' \<lparr>p_requesterId = ''U2'', p_offer = ''offer-2''\<rparr>
          (videoPending True))) =
     Some (Some \<lparr>v_requesterId = Some ''U2'', v_status = Pending\<rparr>)"
  by code_simp

section \<open>Moderation\<close>

lemma anyPattern_list_ex: "anyPattern ps c = list_ex (\<lambda>p. test p c) ps"
  by (induction ps) auto

lemma otherUserOf_messages: "otherUserOf (sess\<lparr>messages := ms\<rparr>) c = otherUserOf sess c"
  by (simp add: otherUserOf_def)

text \<open>Where the filter returns, that is on a text with a word character, the result is
  flagged exactly when a pattern matches or the text has been changed.\<close>

lemma moderateContent_returns:
  assumes "test Boundary c"
  shows "moderateContent masked c =
           Inr \<lparr>content = masked c,
                flagged = (list_ex (\<lambda>p. test p c) personalInfoPatterns \<or> masked c \<noteq> c),
                original = c\<rparr>"
  using assms by (simp add: moderateContent_def filterClean_def anyPattern_list_ex)

text \<open>Such a message is stored with the cleaned content, flagged or not, and sent to the
  first connection registered for the peer.\<close>

lemma chat_stored:
  assumes "getClient clientId s = Some c" and "truthy (c_sessionId c)"
    and "getFromStore (''session:'' @ the (c_sessionId c)) s = Some sess"
    and "test Boundary (m_content payload)"
  shows "\<exists>s1. handleChatMessage masked now clientId payload s = Inr s1 \<and>
           getFromStore (''session:'' @ the (c_sessionId c)) s1 =
             Some (sess\<lparr>messages := messages sess @
                 [payload\<lparr>m_content := masked (m_content payload), m_timestamp := now\<rparr>]\<rparr>)"
  using assms
  by (simp add: handleChatMessage_def Let_def moderateContent_returns getFromStore_send
      getFromStore_setInStore split: option.splits prod.splits)

lemma chat_forwarded:
  assumes "getClient clientId s = Some c" and "truthy (c_sessionId c)"
    and "getFromStore (''session:'' @ the (c_sessionId c)) s = Some sess"
    and "test Boundary (m_content payload)"
    and "otherUserOf sess c = Some peer" and "findClientByUser (uid peer) s = Some (k, pc)"
    and "distinct (map fst (clients s))"
  shows "\<exists>s1. handleChatMessage masked now clientId payload s = Inr s1 \<and>
           getClient k s1 =
             Some (pc\<lparr>c_sent := c_sent pc @
               [ChatMsg (payload\<lparr>m_content := masked (m_content payload),
                                 m_timestamp := now\<rparr>)]\<rparr>)"
proof -
  have g: "getClient k s = Some pc"
    using assms(6,7) by (rule findClientByUser_getClient)
  show ?thesis
    using assms(1-6) g
    by (simp add: handleChatMessage_def Let_def moderateContent_returns otherUserOf_messages
        findClientByUser_setInStore getClient_send getClient_setInStore)
qed

text \<open>
  C4, evaluated where it fails: in the session of \<open>matchedPair\<close> the connection
  \<open>c1\<close> sends the chat message \<^verbatim>\<open>!!!\<close>. The text has no word character, so the
  profanity filter raises, \<open>moderateContent\<close> returns no result and the handler raises
  with it, whatever the word list. The listener answers \<open>c1\<close> with
  \<^verbatim>\<open>Invalid message format\<close>: the session still holds its one system message and the
  peer \<open>c2\<close> is sent nothing.
\<close>

theorem chat_without_word_char_rejected:
  "moderateContent masked ''!!!'' = Inl TypeError \<and>
   handleChatMessage masked 2000 ''c1'' exBang (matchedPair False) = Inl TypeError \<and>
   map_option (map m_type \<circ> messages) (getFromStore ''session:s1''
       (onChatMessage masked 2000 ''c1'' exBang (matchedPair False))) = Some [TSystem] \<and>
   sentTo ''c2'' (onChatMessage masked 2000 ''c1'' exBang (matchedPair False)) =
     sentTo ''c2'' (matchedPair False) \<and>
   sentTo ''c1'' (onChatMessage masked 2000 ''c1'' exBang (matchedPair False)) =
     sentTo ''c1'' (matchedPair False) @ [ErrorMsg ''Invalid message format'' None]"
proof -
  have 1: "moderateContent masked ''!!!'' = Inl TypeError" by code_simp
  have "map_option c_sessionId (getClient ''c1'' (matchedPair False)) = Some (Some ''s1'')"
    by code_simp
  then obtain cl where c: "getClient ''c1'' (matchedPair False) = Some cl"
    and k: "c_sessionId cl = Some ''s1''" by auto
  have "getFromStore ''session:s1'' (matchedPair False) \<noteq> None" by code_simp
  then obtain sess where g: "getFromStore ''session:s1'' (matchedPair False) = Some sess"
    by auto
  have m: "m_content exBang = ''!!!''" by code_simp
  have 2: "handleChatMessage masked 2000 ''c1'' exBang (matchedPair False) = Inl TypeError"
    by (simp add: handleChatMessage_def c k g m 1)
  have o: "onChatMessage masked 2000 ''c1'' exBang (matchedPair False) =
             send ''c1'' (ErrorMsg ''Invalid message format'' None) (matchedPair False)"
    by (simp add: onChatMessage_def 2)
  have 3: "map_option (map m_type \<circ> messages) (getFromStore ''session:s1''
       (send ''c1'' (ErrorMsg ''Invalid message format'' None) (matchedPair False))) =
       Some [TSystem]" by code_simp
  have 4: "sentTo ''c2'' (send ''c1'' (ErrorMsg ''Invalid message format'' None)
       (matchedPair False)) = sentTo ''c2'' (matchedPair False)" by code_simp
  have 5: "sentTo ''c1'' (send ''c1'' (ErrorMsg ''Invalid message format'' None)
       (matchedPair False)) =
     sentTo ''c1'' (matchedPair False) @ [ErrorMsg ''Invalid message format'' None]"
    by code_simp
  show ?thesis unfolding o using 1 2 3 4 5 by (intro conjI)
qed

section \<open>Reports\<close>

lemma postReport_stores:
  assumes "useRedis s \<longrightarrow> redisUp"
  shows "fst (postReport rid now ip redisUp (Some body) s) =
           Json200 True ''Report submitted successfully'' \<and>
         (\<exists>rep. mset (storedReports (snd (postReport rid now ip redisUp (Some body) s))) =
                  add_mset rep (mset (storedReports s)) \<and>
                r_sessionId rep = b_sessionId body \<and> r_reason rep = b_reason body \<and>
                r_messages rep = (case b_messages body of None \<Rightarrow> [] | Some ms \<Rightarrow> ms))"
  using assms by (auto simp: postReport_def storedReports_def Let_def)

lemma postReport_fails:
  assumes "bodyOpt = None \<or> (useRedis s \<and> \<not> redisUp)"
  shows "postReport rid now ip redisUp bodyOpt s = (Json500 ''Failed to submit report'', s)"
  using assms by (auto simp: postReport_def Let_def split: option.splits)

lemma apiReport_admitted:
  assumes "admitted (15 * 60 * 1000) 100 ip now (apiHits l)"
    and "admitted (60 * 60 * 1000) 5 ip now (reportHits l)"
  shows "fst (apiReport rid now ip redisUp bodyOpt (l, s)) =
           fst (postReport rid now ip redisUp bodyOpt s) \<and>
         snd (snd (apiReport rid now ip redisUp bodyOpt (l, s))) =
           snd (postReport rid now ip redisUp bodyOpt s)"
  using assms by (simp add: apiReport_def rateLimit_def Let_def split: prod.splits)

lemma apiReport_rejected:
  assumes "\<not> (admitted (15 * 60 * 1000) 100 ip now (apiHits l) \<and>
              admitted (60 * 60 * 1000) 5 ip now (reportHits l))"
  shows "fst (apiReport rid now ip redisUp bodyOpt (l, s)) = tooManyRequests \<and>
         snd (snd (apiReport rid now ip redisUp bodyOpt (l, s))) = s"
  using assms by (auto simp: apiReport_def rateLimit_def Let_def split: prod.splits)

text \<open>
  C10, as the code has it. A request that both rate limiters admit, with a body and with
  the store answering, is answered with success and adds exactly one report, which carries
  the session id of the body as it is (no session is looked up) and an empty message list
  when the body has none. A request over a limit is answered with status 429 and leaves the
  server as it is; an admitted request with no body, or with Redis failing on the write, is
  answered with status 500 and stores nothing.
\<close>

theorem report_route_gated:
  "(admitted (15 * 60 * 1000) 100 ip now (apiHits l) \<and>
    admitted (60 * 60 * 1000) 5 ip now (reportHits l) \<and> (useRedis s \<longrightarrow> redisUp) \<longrightarrow>
      fst (apiReport rid now ip redisUp (Some body) (l, s)) =
        Json200 True ''Report submitted successfully'' \<and>
      (\<exists>rep. mset (storedReports (snd (snd (apiReport rid now ip redisUp (Some body) (l, s))))) =
               add_mset rep (mset (storedReports s)) \<and>
             r_sessionId rep = b_sessionId body \<and> r_reason rep = b_reason body \<and>
             r_messages rep = (case b_messages body of None \<Rightarrow> [] | Some ms \<Rightarrow> ms))) \<and>
   (\<not> (admitted (15 * 60 * 1000) 100 ip now (apiHits l) \<and>
        admitted (60 * 60 * 1000) 5 ip now (reportHits l)) \<longrightarrow>
      fst (apiReport rid now ip redisUp bodyOpt (l, s)) = tooManyRequests \<and>
      snd (snd (apiReport rid now ip redisUp bodyOpt (l, s))) = s) \<and>
   (admitted (15 * 60 * 1000) 100 ip now (apiHits l) \<and>
    admitted (60 * 60 * 1000) 5 ip now (reportHits l) \<and>
    (bodyOpt = None \<or> (useRedis s \<and> \<not> redisUp)) \<longrightarrow>
      fst (apiReport rid now ip redisUp bodyOpt (l, s)) = Json500 ''Failed to submit report'' \<and>
      snd (snd (apiReport rid now ip redisUp bodyOpt (l, s))) = s)"
proof (intro conjI impI)
  assume a: "admitted (15 * 60 * 1000) 100 ip now (apiHits l) \<and>
    admitted (60 * 60 * 1000) 5 ip now (reportHits l) \<and> (useRedis s \<longrightarrow> redisUp)"
  note ad = apiReport_admitted[of ip now l rid redisUp "Some body" s]
  note st = postReport_stores[of s redisUp rid now ip body]
  show "fst (apiReport rid now ip redisUp (Some body) (l, s)) =
        Json200 True ''Report submitted successfully''"
    using a ad st by simp
  show "\<exists>rep. mset (storedReports (snd (snd (apiReport rid now ip redisUp (Some body) (l, s))))) =
               add_mset rep (mset (storedReports s)) \<and>
             r_sessionId rep = b_sessionId body \<and> r_reason rep = b_reason body \<and>
             r_messages rep = (case b_messages body of None \<Rightarrow> [] | Some ms \<Rightarrow> ms)"
    using a ad st by simp
next
  assume r: "\<not> (admitted (15 * 60 * 1000) 100 ip now (apiHits l) \<and>
        admitted (60 * 60 * 1000) 5 ip now (reportHits l))"
  show "fst (apiReport rid now ip redisUp bodyOpt (l, s)) = tooManyRequests"
    using apiReport_rejected[OF r] by simp
  show "snd (snd (apiReport rid now ip redisUp bodyOpt (l, s))) = s"
    using apiReport_rejected[OF r] by simp
next
  assume f: "admitted (15 * 60 * 1000) 100 ip now (apiHits l) \<and>
    admitted (60 * 60 * 1000) 5 ip now (reportHits l) \<and>
    (bodyOpt = None \<or> (useRedis s \<and> \<not> redisUp))"
  note ad = apiReport_admitted[of ip now l rid redisUp bodyOpt s]
  note fl = postReport_fails[of bodyOpt s redisUp rid now ip]
  show "fst (apiReport rid now ip redisUp bodyOpt (l, s)) = Json500 ''Failed to submit report''"
    using f ad fl by simp
  show "snd (snd (apiReport rid now ip redisUp bodyOpt (l, s))) = s"
    using f ad fl by simp
qed

text \<open>Three instances: the first report of an address, on a session the store does not
  hold and with no messages; its sixth report within the hour; and a first report while
  Redis fails on the write.\<close>

theorem report_route_gated_witness:
  "admitted (15 * 60 * 1000) 100 ''10.0.0.1'' 0 (apiHits noHits) \<and>
   admitted (60 * 60 * 1000) 5 ''10.0.0.1'' 0 (reportHits noHits) \<and>
   fst (apiReport ''r'' 0 ''10.0.0.1'' True (Some exBody) (noHits, emptyServer False)) =
     Json200 True ''Report submitted successfully'' \<and>
   map r_messages (storedReports (snd (reportsPosted 1))) = [[]] \<and>
   \<not> admitted (60 * 60 * 1000) 5 ''10.0.0.1'' 5000 (reportHits (fst (reportsPosted 5))) \<and>
   fst (apiReport ''r'' 5000 ''10.0.0.1'' True (Some exBody) (reportsPosted 5)) =
     tooManyRequests \<and>
   snd (snd (apiReport ''r'' 5000 ''10.0.0.1'' True (Some exBody) (reportsPosted 5))) =
     snd (reportsPosted 5) \<and>
   useRedis (emptyServer True) \<and>
   fst (apiReport ''r'' 0 ''10.0.0.1'' False (Some exBody) (noHits, emptyServer True)) =
     Json500 ''Failed to submit report''"
proof -
  have a: "admitted (15 * 60 * 1000) 100 ''10.0.0.1'' 0 (apiHits noHits)"
          "admitted (60 * 60 * 1000) 5 ''10.0.0.1'' 0 (reportHits noHits)" by code_simp+
  have m: "\<not> useRedis (emptyServer False)" "useRedis (emptyServer True)" by code_simp+
  have s: "map r_messages (storedReports (snd (reportsPosted 1))) = [[]]" by code_simp
  have r: "\<not> admitted (60 * 60 * 1000) 5 ''10.0.0.1'' 5000 (reportHits (fst (reportsPosted 5)))"
    by code_simp
  have p: "reportsPosted 5 = (fst (reportsPosted 5), snd (reportsPosted 5))" by simp
  note t1 = report_route_gated[of "''10.0.0.1''" 0 noHits "emptyServer False" True "''r''" exBody
      "Some exBody"]
  note t2 = report_route_gated[of "''10.0.0.1''" 5000 "fst (reportsPosted 5)"
      "snd (reportsPosted 5)" True "''r''" exBody "Some exBody"]
  note t3 = report_route_gated[of "''10.0.0.1''" 0 noHits "emptyServer True" False "''r''" exBody
      "Some exBody"]
  have 1: "fst (apiReport ''r'' 0 ''10.0.0.1'' True (Some exBody) (noHits, emptyServer False)) =
     Json200 True ''Report submitted successfully''"
    using t1 a m by simp
  have 2: "fst (apiReport ''r'' 5000 ''10.0.0.1'' True (Some exBody) (reportsPosted 5)) =
     tooManyRequests"
    using t2 r by (subst p) blast
  have 3: "snd (snd (apiReport ''r'' 5000 ''10.0.0.1'' True (Some exBody) (reportsPosted 5))) =
     snd (reportsPosted 5)"
    using t2 r by (subst p) blast
  have 4: "fst (apiReport ''r'' 0 ''10.0.0.1'' False (Some exBody) (noHits, emptyServer True)) =
     Json500 ''Failed to submit report''"
    using t3 a m by simp
  show ?thesis using a s r 1 2 3 4 m(2) by (intro conjI)
qed

text \<open>C10 as stated fails at the sixth report an address posts within an hour: the limiter
  of \<^verbatim>\<open>/api/report\<close> answers with status 429 and the stored reports stay five.\<close>

theorem sixth_report_counterexample:
  "length (storedReports (snd (reportsPosted 5))) = 5 \<and>
   fst (apiReport ''r'' 5000 ''10.0.0.1'' True (Some exBody) (reportsPosted 5)) =
     Json429 ''Too many requests, please try again later.'' \<and>
   length (storedReports
     (snd (snd (apiReport ''r'' 5000 ''10.0.0.1'' True (Some exBody) (reportsPosted 5))))) = 5"
  by code_simp

end
